theory Spec2Isabelle
  imports Complex_Main "HOL-Library.Word" "HOL-Library.AList" "HOL-Library.Monad_Syntax"
begin

section \<open>Python and pandas primitives used by the judges package\<close>

text \<open>
  Strings are lists of 8-bit characters, one \<^typ>\<open>char\<close> per code point; the model covers
  names and vote strings whose code points are below 256. Upper-casing is Python's on the
  ASCII letters and leaves every other character as it is.
\<close>

datatype error = KeyError | IndexError | ValueError | ZeroDivisionError

definition isspace :: "char \<Rightarrow> bool" where
  \<comment> \<open>\<^verbatim>\<open>str.isspace\<close> on one character: TAB..CR, FS..US, space, NEL, NBSP.\<close>
  "isspace c = (let n = (of_char c :: nat) in
     (9 \<le> n \<and> n \<le> 13) \<or> (28 \<le> n \<and> n \<le> 32) \<or> n = 133 \<or> n = 160)"

definition strip :: "string \<Rightarrow> string" where
  \<comment> \<open>\<^verbatim>\<open>s.strip()\<close>: leading and trailing white space removed.\<close>
  "strip s = rev (dropWhile isspace (rev (dropWhile isspace s)))"

definition upper_char :: "char \<Rightarrow> char" where
  "upper_char c = (let n = (of_char c :: nat) in
     if 97 \<le> n \<and> n \<le> 122 then char_of (n - 32) else c)"

definition upper :: "string \<Rightarrow> string" where
  \<comment> \<open>\<^verbatim>\<open>s.upper()\<close>\<close>
  "upper s = map upper_char s"

fun contains :: "string \<Rightarrow> string \<Rightarrow> bool" where
  \<comment> \<open>\<^verbatim>\<open>sub in s\<close> on strings\<close>
  "contains sub [] = (sub = [])"
| "contains sub (c # cs) = (take (length sub) (c # cs) = sub \<or> contains sub cs)"

fun split :: "char \<Rightarrow> string \<Rightarrow> string list" where
  \<comment> \<open>\<^verbatim>\<open>s.split(sep)\<close> for a one-character separator\<close>
  "split sep [] = [ [] ]"
| "split sep (c # cs) =
     (if c = sep then [] # split sep cs
      else (case split sep cs of [] \<Rightarrow> [ [c] ] | p # ps \<Rightarrow> (c # p) # ps))"

definition isdigit :: "char \<Rightarrow> bool" where
  "isdigit c = (48 \<le> (of_char c :: nat) \<and> (of_char c :: nat) \<le> 57)"

definition digit_val :: "char \<Rightarrow> int" where
  "digit_val c = int (of_char c) - 48"

fun parse_digits :: "int \<Rightarrow> bool \<Rightarrow> string \<Rightarrow> int option" where
  \<comment> \<open>digits with single underscores between them; the flag says that the previous
      character was a digit\<close>
  "parse_digits acc prev [] = (if prev then Some acc else None)"
| "parse_digits acc prev (c # cs) =
     (if isdigit c then parse_digits (10 * acc + digit_val c) True cs
      else if c = CHR ''_'' \<and> prev then parse_digits acc False cs
      else None)"

definition python_int :: "string \<Rightarrow> int option" where
  \<comment> \<open>\<^verbatim>\<open>int(s)\<close> on a string; \<open>None\<close> stands for the ValueError\<close>
  "python_int s =
     (case strip s of
        [] \<Rightarrow> None
      | c # cs \<Rightarrow>
          if c = CHR ''-'' then map_option uminus (parse_digits 0 False cs)
          else if c = CHR ''+'' then parse_digits 0 False cs
          else parse_digits 0 False (c # cs))"

definition digit_char :: "nat \<Rightarrow> char" where
  "digit_char d = char_of (48 + d)"

fun digits_of :: "nat \<Rightarrow> string" where
  "digits_of n = (if n < 10 then [digit_char n] else digits_of (n div 10) @ [digit_char (n mod 10)])"

declare digits_of.simps [simp del]

definition str_int :: "int \<Rightarrow> string" where
  \<comment> \<open>\<^verbatim>\<open>str(i)\<close> on an integer\<close>
  "str_int i = (if i < 0 then CHR ''-'' # digits_of (nat (- i)) else digits_of (nat i))"

fun drop_duplicates :: "'a list \<Rightarrow> 'a list" where
  \<comment> \<open>\<^verbatim>\<open>DataFrame.drop_duplicates\<close>: the first of equal rows is kept, in place\<close>
  "drop_duplicates [] = []"
| "drop_duplicates (x # xs) = x # drop_duplicates (removeAll x xs)"

section \<open>fjc\_create: the judge table\<close>

datatype date = Date (dt_year: int) (dt_month: nat) (dt_day: nat)

text \<open>
  The columns that the judge table and the names table share. A year column holds
  \<open>None\<close> for \<^verbatim>\<open>NaN\<close>; the court codes are int64 values.
\<close>

record assignment =
  start_year :: "int option"
  end_year :: "int option"
  court_num :: "64 word"
  circuit_num :: "64 word"
  judge_name :: string

text \<open>
  One row of the merged judge table, with the columns the functions below read and write.
  A date column holds the parsed timestamp, \<open>None\<close> for \<^verbatim>\<open>NaT\<close>.
\<close>

record judge = assignment +
  nid :: int
  first_name :: string
  middle_name :: string
  last_name :: string
  senate_vote_type :: string
  senate_vote :: string
  senate_percent :: rat
  start_date :: "date option"
  termination_date :: "date option"
  name_perm1 :: string
  name_perm2 :: string
  name_perm3 :: string
  name_perm4 :: string
  name_perm5 :: string
  name_perm6 :: string
  name_perm7 :: string

text \<open>A DataFrame: its rows in order, each with its index label.\<close>

type_synonym frame = "(int \<times> judge) list"

subsection \<open>encode\_senate\_vote\<close>

definition encode_senate_vote :: "judge \<Rightarrow> error + judge" where
  "encode_senate_vote row =
     (if senate_vote_type row = ''Voice'' then Inr (row\<lparr>senate_percent := 1\<rparr>)
      else if contains ''/'' (senate_vote row) \<and> \<not> contains ''//'' (senate_vote row) then
        (case split (CHR ''/'') (senate_vote row) of
           [yeas, neas] \<Rightarrow>
             (case python_int yeas of
                None \<Rightarrow> Inl ValueError
              | Some y \<Rightarrow>
                  (case python_int neas of
                     None \<Rightarrow> Inl ValueError
                   | Some n \<Rightarrow>
                       if y + n = 0 then Inl ZeroDivisionError
                       else Inr (row\<lparr>senate_percent := of_int y / of_int (y + n)\<rparr>)))
         | _ \<Rightarrow> Inl ValueError)
      else Inr (row\<lparr>senate_percent := 0\<rparr>))"

subsection \<open>time\_limit\<close>

text \<open>
  The two window bounds \<^verbatim>\<open>instructions.START_YEAR\<close> and \<^verbatim>\<open>instructions.END_YEAR\<close> are
  parameters. A comparison with \<^verbatim>\<open>NaN\<close> is false, so a row without a start year is dropped.
\<close>

definition time_limit :: "int \<Rightarrow> int \<Rightarrow> frame \<Rightarrow> frame" where
  "time_limit START_YEAR END_YEAR df =
     (let df1 = map (\<lambda>(l, r). (l, r\<lparr>end_year := map_option dt_year (termination_date r)\<rparr>)) df;
          df2 = map (\<lambda>(l, r). (l, r\<lparr>end_year :=
                   (case end_year r of None \<Rightarrow> Some END_YEAR | Some y \<Rightarrow> Some y)\<rparr>)) df1;
          df3 = map (\<lambda>(l, r). (l, r\<lparr>start_year := map_option dt_year (start_date r)\<rparr>)) df2;
          df4 = filter (\<lambda>(l, r). case end_year r of None \<Rightarrow> False
                                   | Some e \<Rightarrow> e > START_YEAR - 2) df3;
          df5 = filter (\<lambda>(l, r). case start_year r of None \<Rightarrow> False
                                   | Some s \<Rightarrow> s \<le> END_YEAR) df4
      in df5)"

subsection \<open>name\_changes\<close>

datatype name_column = First_name | Middle_name | Last_name

definition set_column :: "name_column \<Rightarrow> string \<Rightarrow> judge \<Rightarrow> judge" where
  \<comment> \<open>\<^verbatim>\<open>row[col_name] = value\<close>\<close>
  "set_column col_name v row =
     (case col_name of
        First_name \<Rightarrow> row\<lparr>first_name := v\<rparr>
      | Middle_name \<Rightarrow> row\<lparr>middle_name := v\<rparr>
      | Last_name \<Rightarrow> row\<lparr>last_name := v\<rparr>)"

definition loc :: "frame \<Rightarrow> int \<Rightarrow> error + frame" where
  \<comment> \<open>\<^verbatim>\<open>df.loc[label]\<close>: the rows whose index label is \<open>label\<close>, a copy; KeyError when
      there is none\<close>
  "loc df label =
     (case filter (\<lambda>(l, r). l = label) df of [] \<Rightarrow> Inl KeyError | rows \<Rightarrow> Inr rows)"

definition make_change :: "frame \<Rightarrow> int \<Rightarrow> name_column \<Rightarrow> string \<Rightarrow> error + frame" where
  "make_change df index_num col_name v =
     (case loc df index_num of
        Inl e \<Rightarrow> Inl e
      | Inr row \<Rightarrow> Inr (map (\<lambda>(l, r). (l, set_column col_name v r)) row))"

definition try_append :: "frame \<Rightarrow> error + frame \<Rightarrow> error + frame" where
  \<comment> \<open>\<^verbatim>\<open>try: df = df.append(...) except KeyError: pass\<close>\<close>
  "try_append df change =
     (case change of
        Inr row \<Rightarrow> Inr (df @ row)
      | Inl KeyError \<Rightarrow> Inr df
      | Inl e \<Rightarrow> Inl e)"

definition name_changes :: "frame \<Rightarrow> error + frame" where
  "name_changes df =
     (case try_append df (make_change df 1386716 Last_name ''Randall'') of
        Inl e \<Rightarrow> Inl e
      | Inr df' \<Rightarrow> try_append df' (make_change df' 1382851 First_name ''Sam''))"

subsection \<open>name\_perms\<close>

definition re_sub :: "string \<Rightarrow> string" where
  \<comment> \<open>\<^verbatim>\<open>re.sub("\.|\,|\[|\]|\'", '', s)\<close>\<close>
  "re_sub s = filter (\<lambda>c. c \<notin> set [CHR ''.'', CHR '','', CHR ''['', CHR '']'', CHR 0x27]) s"

definition name_perms :: "judge \<Rightarrow> error + judge" where
  "name_perms row0 =
     (let row = row0\<lparr>first_name := re_sub (first_name row0)\<rparr>;
          row = row\<lparr>last_name := re_sub (last_name row)\<rparr>;
          row = row\<lparr>middle_name := re_sub (middle_name row)\<rparr>;
          first = upper (strip (first_name row))
      in case first of
           [] \<Rightarrow> Inl IndexError
         | f # _ \<Rightarrow>
            (let first_init = upper [f];
                 middle = upper (strip (middle_name row));
                 middle_init = (case middle of [] \<Rightarrow> [] | m # _ \<Rightarrow> upper [m]);
                 last = upper (strip (last_name row))
             in Inr (row\<lparr>
                  name_perm1 := first @ '' '' @ middle @ '' '' @ last,
                  name_perm2 := first @ '' '' @ middle_init @ '' '' @ last,
                  name_perm3 := first @ '' '' @ last,
                  name_perm4 := first_init @ '' '' @ middle @ '' '' @ last,
                  name_perm5 := first_init @ '' '' @ middle_init @ '' '' @ last,
                  name_perm6 := first_init @ '' '' @ last,
                  name_perm7 := last\<rparr>)))"

subsection \<open>make\_names\_df\<close>

text \<open>
  One row of the names table: the shared columns, \<open>year\<close> and the single \<open>name_perm\<close>
  column that \<^verbatim>\<open>wide_to_long\<close> makes of the seven. \<^verbatim>\<open>nindex\<close> and \<^verbatim>\<open>nperm\<close> are the
  index of that table and no column of it; \<^verbatim>\<open>ignore_index\<close> discards them.
\<close>

record names = assignment +
  year :: "64 word"
  name_perm :: string

definition wide_to_long :: "64 word \<Rightarrow> judge list \<Rightarrow> names list" where
  \<comment> \<open>the rows of \<^verbatim>\<open>name_perm1\<close> first, then those of \<^verbatim>\<open>name_perm2\<close>, and so on\<close>
  "wide_to_long y df =
     concat (map (\<lambda>perm. map (\<lambda>r.
        \<lparr>start_year = start_year r, end_year = end_year r, court_num = court_num r,
         circuit_num = circuit_num r, judge_name = judge_name r,
         year = y, name_perm = perm r\<rparr>) df)
       [name_perm1, name_perm2, name_perm3, name_perm4, name_perm5, name_perm6, name_perm7])"

definition make_names_df :: "frame \<Rightarrow> names list" where
  \<comment> \<open>\<^verbatim>\<open>df.sort_values(by = ['court_num'])\<close> returns a sorted copy that the function
      discards, so the rows keep their order; then \<^verbatim>\<open>df['year'] = 0\<close>\<close>
  "make_names_df df =
     (let yr = 0;
          df1 = wide_to_long yr (map snd df);
          df2 = filter (\<lambda>r. name_perm r \<noteq> []) df1
      in drop_duplicates df2)"

section \<open>fjc\_match: the lookup tables\<close>

text \<open>
  The functions are those of \<^verbatim>\<open>fjc_match\<close>. \<^verbatim>\<open>fjc_create\<close> holds a second copy of
  \<^verbatim>\<open>convert_judge_name_series\<close>, the same, and one of \<^verbatim>\<open>make_name_dicts\<close> that calls
  \<^verbatim>\<open>set_index\<close> on the list \<^verbatim>\<open>names\<close> instead of the table.
\<close>

text \<open>
  The columns \<^verbatim>\<open>year\<close>, \<^verbatim>\<open>court_num\<close> and \<^verbatim>\<open>circuit_num\<close> of the table read back are int64
  columns: \<^verbatim>\<open>.astype(int)\<close> leaves them as they are, and their arithmetic wraps around.
\<close>

definition astype_str :: "64 word \<Rightarrow> string" where
  \<comment> \<open>\<^verbatim>\<open>.astype(str)\<close> on an int64 value\<close>
  "astype_str w = str_int (sint w)"

definition convert_judge_name_series ::
  "64 word list \<Rightarrow> 64 word list \<Rightarrow> string list \<Rightarrow> int \<Rightarrow> string list option" where
  \<comment> \<open>the columns are combined element by element; \<open>None\<close> is Python's \<^verbatim>\<open>None\<close>\<close>
  "convert_judge_name_series yr court name dict_type =
     (if dict_type = 1 then
        Some (map2 (@) (map astype_str (map2 (+) (map (\<lambda>c. c * 10000) court) yr)) name)
      else if dict_type = 2 then
        Some (map2 (@) (map astype_str yr) name)
      else None)"

definition to_dict :: "string list \<Rightarrow> string list \<Rightarrow> (string \<times> string) list" where
  \<comment> \<open>\<^verbatim>\<open>df.set_index(key).to_dict()['judge_name']\<close>: a dict filled in row order, kept
      in insertion order\<close>
  "to_dict index vals = foldl (\<lambda>d (k, v). AList.update k v d) [] (zip index vals)"

definition make_name_dicts :: "names list \<Rightarrow> (string \<times> string) list list option" where
  \<comment> \<open>\<open>df0\<close> is the table read from \<^verbatim>\<open>instructions.NAMES_PATH\<close>\<close>
  "make_name_dicts df0 =
     (let df = map (\<lambda>r. r\<lparr>name_perm := upper (name_perm r)\<rparr>) df0 in
      do {
        concat_name1 \<leftarrow> convert_judge_name_series
          (map year df) (map court_num df) (map name_perm df) 1;
        concat_name2 \<leftarrow> convert_judge_name_series
          (map year df) (map circuit_num df) (map name_perm df) 1;
        concat_name3 \<leftarrow> convert_judge_name_series
          (map year df) (map court_num df) (map name_perm df) 2;
        concat_name4 \<leftarrow> convert_judge_name_series
          (map year df) (map circuit_num df) (map name_perm df) 2;
        Some [to_dict concat_name1 (map judge_name df),
              to_dict concat_name2 (map judge_name df),
              to_dict concat_name3 (map judge_name df),
              to_dict concat_name4 (map judge_name df),
              to_dict (map name_perm df) (map judge_name df)]
      })"

text \<open>
  The five keys of one row, in the order of the five tables: what the columns
  \<^verbatim>\<open>concat_name1\<close> to \<^verbatim>\<open>concat_name4\<close> and the upper-cased \<^verbatim>\<open>name_perm\<close> of
  \<^verbatim>\<open>make_name_dicts\<close> hold in that row.
\<close>

definition row_keys :: "names \<Rightarrow> string list" where
  "row_keys r =
     (let name = upper (name_perm r) in
      [astype_str (court_num r * 10000 + year r) @ name,
       astype_str (circuit_num r * 10000 + year r) @ name,
       astype_str (year r) @ name,
       astype_str (year r) @ name,
       name])"

section \<open>Example rows\<close>

definition blank_row :: judge where
  \<comment> \<open>a row with every column empty, from which the examples below are built\<close>
  "blank_row = \<lparr>start_year = None, end_year = None, court_num = 0, circuit_num = 0,
     judge_name = [], nid = 0, first_name = [], middle_name = [], last_name = [],
     senate_vote_type = [], senate_vote = [], senate_percent = 0,
     start_date = None, termination_date = None,
     name_perm1 = [], name_perm2 = [], name_perm3 = [], name_perm4 = [],
     name_perm5 = [], name_perm6 = [], name_perm7 = []\<rparr>"

section \<open>Properties of the primitives\<close>







section \<open>The senate vote percentage\<close>









text \<open>Two more vote strings that pass the slash test and raise.\<close>

lemma encode_zero_tally:
  "encode_senate_vote (blank_row\<lparr>senate_vote := ''0/0''\<rparr>) = Inl ZeroDivisionError"
  by (simp add: encode_senate_vote_def blank_row_def python_int_def strip_def isspace_def isdigit_def digit_val_def)

lemma encode_two_slashes:
  "encode_senate_vote (blank_row\<lparr>senate_vote := ''1/2/3''\<rparr>) = Inl ValueError"
  by (simp add: encode_senate_vote_def blank_row_def)

section \<open>The service window\<close>

lemma time_limit_Nil: "time_limit S E [] = []"
  by (simp add: time_limit_def)

lemma time_limit_append:
  "time_limit S E (xs @ ys) = time_limit S E xs @ time_limit S E ys"
  by (simp add: time_limit_def)

lemma time_limit_Cons:
  "time_limit S E (x # ys) = time_limit S E [x] @ time_limit S E ys"
  using time_limit_append [of S E "[x]" ys] by simp

lemma time_limit_row:
  "time_limit S E [(l, r)] =
     (if (case termination_date r of None \<Rightarrow> E | Some t \<Rightarrow> dt_year t) > S - 2 \<and>
         (case start_date r of None \<Rightarrow> False | Some s \<Rightarrow> dt_year s \<le> E)
      then [(l, r\<lparr>end_year := Some (case termination_date r of None \<Rightarrow> E | Some t \<Rightarrow> dt_year t),
                 start_year := map_option dt_year (start_date r)\<rparr>)]
      else [])"
  by (simp add: time_limit_def split: option.splits)

text \<open>
  C1, as the code has it. The filter works row by row. A row whose end year (the year of
  its termination date, \<^verbatim>\<open>END_YEAR\<close> when it has none) is the window start minus 1 is
  retained with its two year columns filled in, provided that its start year is not after
  \<^verbatim>\<open>END_YEAR\<close>; a row whose end year is the window start minus 2, or minus 3, is dropped.
\<close>

theorem time_limit_boundary:
  "((case termination_date r of None \<Rightarrow> END_YEAR | Some t \<Rightarrow> dt_year t) = START_YEAR - 1 \<and>
    start_date r = Some s \<and> dt_year s \<le> END_YEAR \<longrightarrow>
      time_limit START_YEAR END_YEAR (xs @ (l, r) # ys) =
        time_limit START_YEAR END_YEAR xs @
        [(l, r\<lparr>end_year := Some (START_YEAR - 1), start_year := Some (dt_year s)\<rparr>)] @
        time_limit START_YEAR END_YEAR ys) \<and>
   ((case termination_date r of None \<Rightarrow> END_YEAR | Some t \<Rightarrow> dt_year t) = START_YEAR - 2 \<or>
    (case termination_date r of None \<Rightarrow> END_YEAR | Some t \<Rightarrow> dt_year t) = START_YEAR - 3 \<longrightarrow>
      time_limit START_YEAR END_YEAR (xs @ (l, r) # ys) =
        time_limit START_YEAR END_YEAR xs @ time_limit START_YEAR END_YEAR ys)"
proof (intro conjI impI)
  assume a: "(case termination_date r of None \<Rightarrow> END_YEAR | Some t \<Rightarrow> dt_year t) = START_YEAR - 1 \<and>
    start_date r = Some s \<and> dt_year s \<le> END_YEAR"
  then have "time_limit START_YEAR END_YEAR [(l, r)] =
      [(l, r\<lparr>end_year := Some (START_YEAR - 1), start_year := Some (dt_year s)\<rparr>)]"
    by (simp add: time_limit_row)
  then show "time_limit START_YEAR END_YEAR (xs @ (l, r) # ys) =
        time_limit START_YEAR END_YEAR xs @
        [(l, r\<lparr>end_year := Some (START_YEAR - 1), start_year := Some (dt_year s)\<rparr>)] @
        time_limit START_YEAR END_YEAR ys"
    using time_limit_append [of START_YEAR END_YEAR xs "(l, r) # ys"]
      time_limit_Cons [of START_YEAR END_YEAR "(l, r)" ys] by simp
next
  assume "(case termination_date r of None \<Rightarrow> END_YEAR | Some t \<Rightarrow> dt_year t) = START_YEAR - 2 \<or>
    (case termination_date r of None \<Rightarrow> END_YEAR | Some t \<Rightarrow> dt_year t) = START_YEAR - 3"
  then have "time_limit START_YEAR END_YEAR [(l, r)] = []"
    by (auto simp: time_limit_row)
  then show "time_limit START_YEAR END_YEAR (xs @ (l, r) # ys) =
        time_limit START_YEAR END_YEAR xs @ time_limit START_YEAR END_YEAR ys"
    using time_limit_append [of START_YEAR END_YEAR xs "(l, r) # ys"]
      time_limit_Cons [of START_YEAR END_YEAR "(l, r)" ys] by simp
qed

text \<open>Window 1950 to 2020: a judge who left in 1949 stays, one who left in 1947 goes.\<close>

theorem time_limit_boundary_witness:
  "time_limit 1950 2020
     [(0, blank_row\<lparr>start_date := Some (Date 1930 5 1), termination_date := Some (Date 1949 3 4)\<rparr>)]
   = [(0, blank_row\<lparr>start_date := Some (Date 1930 5 1), termination_date := Some (Date 1949 3 4),
          end_year := Some 1949, start_year := Some 1930\<rparr>)] \<and>
   time_limit 1950 2020
     [(0, blank_row\<lparr>start_date := Some (Date 1930 5 1), termination_date := Some (Date 1947 3 4)\<rparr>)]
   = []"
proof -
  have a: "time_limit 1950 2020
     [(0, blank_row\<lparr>start_date := Some (Date 1930 5 1), termination_date := Some (Date 1949 3 4)\<rparr>)]
   = [(0, blank_row\<lparr>start_date := Some (Date 1930 5 1), termination_date := Some (Date 1949 3 4),
          end_year := Some 1949, start_year := Some 1930\<rparr>)]"
    using time_limit_boundary [where START_YEAR = 1950 and END_YEAR = 2020 and xs = "[]" and ys = "[]"
        and l = 0 and s = "Date 1930 5 1"
        and r = "blank_row\<lparr>start_date := Some (Date 1930 5 1), termination_date := Some (Date 1949 3 4)\<rparr>"]
    by (simp add: time_limit_Nil)
  have b: "time_limit 1950 2020
     [(0, blank_row\<lparr>start_date := Some (Date 1930 5 1), termination_date := Some (Date 1947 3 4)\<rparr>)]
   = []"
    using time_limit_boundary [where START_YEAR = 1950 and END_YEAR = 2020 and xs = "[]" and ys = "[]"
        and l = 0
        and r = "blank_row\<lparr>start_date := Some (Date 1930 5 1), termination_date := Some (Date 1947 3 4)\<rparr>"]
    by (simp add: time_limit_Nil)
  show ?thesis using a b by blast
qed

text \<open>
  C1 as the claim words it fails at the boundary: with the window starting in 1950, a
  judge who left in 1948 (the window start minus 2) is dropped, since the test is
  \<^verbatim>\<open>end_year > START_YEAR - 2\<close>.
\<close>

theorem time_limit_boundary_counterexample:
  "time_limit 1950 2020
     [(0, blank_row\<lparr>start_date := Some (Date 1930 5 1), termination_date := Some (Date 1948 3 4)\<rparr>)]
   = []"
  by (simp add: time_limit_def)

section \<open>The name permutations\<close>










lemma name_perms_Inl:
  "upper (strip (re_sub (first_name r))) = [] \<Longrightarrow> name_perms r = Inl IndexError"
  by (simp add: name_perms_def Let_def)









text \<open>
  A first name of white space only is not empty after the punctuation is removed, but it
  is after \<^verbatim>\<open>strip\<close>, and \<^verbatim>\<open>first[0]\<close> raises.
\<close>

lemma name_perms_blank_first:
  "name_perms (blank_row\<lparr>first_name := '' '', last_name := ''Lee''\<rparr>) = Inl IndexError"
  by code_simp




section \<open>The hard-coded name corrections\<close>

lemma make_change_eq:
  "make_change df i c v =
     (if filter (\<lambda>(l, r). l = i) df = [] then Inl KeyError
      else Inr (map (\<lambda>(l, r). (l, set_column c v r)) (filter (\<lambda>(l, r). l = i) df)))"
  by (simp add: make_change_def loc_def split: list.splits)

lemma try_append_make_change:
  "try_append df (make_change df i c v) =
     Inr (df @ map (\<lambda>(l, r). (l, set_column c v r)) (filter (\<lambda>(l, r). l = i) df))"
  by (simp add: make_change_eq try_append_def)

lemma filter_other_label:
  "i \<noteq> j \<Longrightarrow>
   filter (\<lambda>(l, r). l = j) (map (\<lambda>(l, r). (l, f r)) (filter (\<lambda>(l, r). l = i) df)) = []"
  by (induction df) auto

lemma filter_absent: "i \<notin> fst ` set df \<Longrightarrow> filter (\<lambda>(l, r). l = i) df = []"
  by (induction df) auto

lemma name_changes_eq:
  "name_changes df =
     Inr (df @ map (\<lambda>(l, r). (l, r\<lparr>last_name := ''Randall''\<rparr>))
                  (filter (\<lambda>(l, r). l = 1386716) df)
             @ map (\<lambda>(l, r). (l, r\<lparr>first_name := ''Sam''\<rparr>))
                  (filter (\<lambda>(l, r). l = 1382851) df))"
  by (simp add: name_changes_def try_append_make_change filter_other_label set_column_def)

text \<open>
  C7, as the code has it. \<^verbatim>\<open>name_changes\<close> never raises. It makes two corrections in
  this order, \<^verbatim>\<open>last_name\<close> to Randall at 1386716 and \<^verbatim>\<open>first_name\<close> to Sam at 1382851,
  each on the rows that \<^verbatim>\<open>df.loc\<close> finds: a corrected copy of those rows is appended to the
  table and the rows already there stay as they are. A correction whose target is absent
  adds nothing, and with both absent the table is returned unchanged.
\<close>

theorem name_changes_appends:
  "name_changes df =
     Inr (df @ map (\<lambda>(l, r). (l, r\<lparr>last_name := ''Randall''\<rparr>))
                  (filter (\<lambda>(l, r). l = 1386716) df)
             @ map (\<lambda>(l, r). (l, r\<lparr>first_name := ''Sam''\<rparr>))
                  (filter (\<lambda>(l, r). l = 1382851) df)) \<and>
   (1386716 \<notin> fst ` set df \<and> 1382851 \<notin> fst ` set df \<longrightarrow> name_changes df = Inr df)"
  by (simp add: name_changes_eq filter_absent)

text \<open>
  A table without either target.
\<close>

theorem name_changes_appends_witness:
  "1386716 \<notin> fst ` set [(0 :: int, blank_row\<lparr>nid := 1382851, first_name := ''Samuel''\<rparr>)] \<and>
   1382851 \<notin> fst ` set [(0 :: int, blank_row\<lparr>nid := 1382851, first_name := ''Samuel''\<rparr>)] \<and>
   name_changes [(0, blank_row\<lparr>nid := 1382851, first_name := ''Samuel''\<rparr>)]
     = Inr [(0, blank_row\<lparr>nid := 1382851, first_name := ''Samuel''\<rparr>)]"
proof -
  let ?df = "[(0 :: int, blank_row\<lparr>nid := 1382851, first_name := ''Samuel''\<rparr>)]"
  have a: "1386716 \<notin> fst ` set ?df" by simp
  have b: "1382851 \<notin> fst ` set ?df" by simp
  have "name_changes ?df = Inr ?df"
    using name_changes_appends [of ?df] a b by blast
  then show ?thesis using a b by blast
qed

text \<open>
  C7 as the claim words it fails: the target row is not patched. It keeps its last name,
  and a second row with the corrected name follows it.
\<close>

theorem name_changes_counterexample:
  "name_changes [(1386716, blank_row\<lparr>nid := 1386716, last_name := ''Randal''\<rparr>)]
     = Inr [(1386716, blank_row\<lparr>nid := 1386716, last_name := ''Randal''\<rparr>),
            (1386716, blank_row\<lparr>nid := 1386716, last_name := ''Randall''\<rparr>)]"
  by (simp add: name_changes_def try_append_def make_change_def loc_def set_column_def)

text \<open>
  The target is looked up in the index of the table, which \<^verbatim>\<open>munge_fjc\<close> leaves
  positional (its \<^verbatim>\<open>set_index('nid')\<close> is commented out): a row whose \<^verbatim>\<open>nid\<close> is 1386716
  under another label is not touched.
\<close>

lemma name_changes_by_label:
  "name_changes [(0, blank_row\<lparr>nid := 1386716, last_name := ''Randal''\<rparr>)]
     = Inr [(0, blank_row\<lparr>nid := 1386716, last_name := ''Randal''\<rparr>)]"
  by (simp add: name_changes_def try_append_def make_change_def loc_def set_column_def)

section \<open>Decimal rendering\<close>

text \<open>
  \<^verbatim>\<open>str\<close> of an integer is its plain decimal form: digits only after an optional minus
  sign, no leading zero, and \<^verbatim>\<open>int\<close> reads the number back.
\<close>

lemma of_char_digit: "d < 10 \<Longrightarrow> (of_char (digit_char d) :: nat) = 48 + d"
  by (simp add: digit_char_def)

lemma isdigit_digit_char: "d < 10 \<Longrightarrow> isdigit (digit_char d)"
  by (simp add: isdigit_def of_char_digit)

lemma digit_val_digit_char: "d < 10 \<Longrightarrow> digit_val (digit_char d) = int d"
  by (simp add: digit_val_def of_char_digit)

lemma isdigit_not_space: "isdigit c \<Longrightarrow> \<not> isspace c"
  by (auto simp: isdigit_def isspace_def Let_def)

lemma isdigit_not_sign: "isdigit c \<Longrightarrow> c \<noteq> CHR ''-'' \<and> c \<noteq> CHR ''+'' \<and> c \<noteq> CHR ''_''"
  by (auto simp: isdigit_def)

lemma digit_char_0: "digit_char 0 = CHR ''0''"
  by code_simp

lemma digit_char_zero: "d < 10 \<Longrightarrow> digit_char d = CHR ''0'' \<longleftrightarrow> d = 0"
proof
  assume d: "d < 10" and "digit_char d = CHR ''0''"
  then have "(of_char (digit_char d) :: nat) = of_char (CHR ''0'')" by simp
  then show "d = 0" using d by (simp add: of_char_digit)
next
  assume "d < 10" and "d = 0"
  then show "digit_char d = CHR ''0''" using digit_char_0 by simp
qed

lemma digits_of_not_Nil: "digits_of n \<noteq> []"
  by (subst digits_of.simps) simp

lemma digits_of_isdigit: "c \<in> set (digits_of n) \<Longrightarrow> isdigit c"
proof (induction n arbitrary: c rule: digits_of.induct)
  case (1 n)
  show ?case
  proof (cases "n < 10")
    case True
    then show ?thesis using "1.prems" by (subst (asm) digits_of.simps) (simp add: isdigit_digit_char)
  next
    case False
    then have "c \<in> set (digits_of (n div 10)) \<or> c = digit_char (n mod 10)"
      using "1.prems" by (subst (asm) digits_of.simps) auto
    then show ?thesis using "1.IH" [OF False] by (auto simp: isdigit_digit_char)
  qed
qed

lemma digits_of_hd: "0 < n \<Longrightarrow> hd (digits_of n) \<noteq> CHR ''0''"
proof (induction n rule: digits_of.induct)
  case (1 n)
  show ?case
  proof (cases "n < 10")
    case True
    then show ?thesis using "1.prems" by (subst digits_of.simps) (simp add: digit_char_zero)
  next
    case False
    then have "0 < n div 10" by simp
    then have "hd (digits_of (n div 10)) \<noteq> CHR ''0''" using "1.IH" [OF False] by simp
    then show ?thesis using False digits_of_not_Nil [of "n div 10"]
      by (subst digits_of.simps) simp
  qed
qed

lemma digits_of_value: "foldl (\<lambda>a c. 10 * a + digit_val c) 0 (digits_of n) = int n"
proof (induction n rule: digits_of.induct)
  case (1 n)
  show ?case
  proof (cases "n < 10")
    case True
    then show ?thesis by (subst digits_of.simps) (simp add: digit_val_digit_char)
  next
    case False
    have "10 * int (n div 10) + int (n mod 10) = int n" by presburger
    then show ?thesis using False "1.IH" [OF False]
      by (subst digits_of.simps) (simp add: digit_val_digit_char)
  qed
qed

lemma parse_all_digits:
  "\<forall>c \<in> set xs. isdigit c \<Longrightarrow> xs \<noteq> [] \<or> prev \<Longrightarrow>
   parse_digits acc prev xs = Some (foldl (\<lambda>a c. 10 * a + digit_val c) acc xs)"
  by (induction xs arbitrary: acc prev) auto

lemma parse_digits_of: "parse_digits 0 False (digits_of n) = Some (int n)"
  using parse_all_digits [of "digits_of n" False 0]
  by (simp add: digits_of_isdigit digits_of_not_Nil digits_of_value)

lemma strip_id:
  assumes "s \<noteq> []" and "\<not> isspace (hd s)" and "\<not> isspace (last s)"
  shows "strip s = s"
proof -
  have a: "dropWhile isspace s = s"
    using assms(2) by (simp add: dropWhile_eq_self_iff)
  have "\<not> isspace (hd (rev s))" using assms(1,3) by (simp add: hd_rev)
  then have b: "dropWhile isspace (rev s) = rev s"
    by (simp add: dropWhile_eq_self_iff)
  show ?thesis by (simp add: strip_def a b)
qed

lemma python_int_str_int: "python_int (str_int i) = Some i"
proof (cases "i < 0")
  case True
  let ?d = "digits_of (nat (- i))"
  have "\<not> isspace (last ?d)"
    using digits_of_isdigit [of "last ?d" "nat (- i)"] digits_of_not_Nil [of "nat (- i)"]
      isdigit_not_space by auto
  then have "strip (CHR ''-'' # ?d) = CHR ''-'' # ?d"
    using digits_of_not_Nil [of "nat (- i)"] by (intro strip_id) (auto simp: isspace_def)
  then show ?thesis using True
    by (simp add: python_int_def str_int_def parse_digits_of)
next
  case False
  let ?d = "digits_of (nat i)"
  obtain c cs where d: "?d = c # cs" using digits_of_not_Nil [of "nat i"] by (cases ?d) auto
  have c: "isdigit c" using digits_of_isdigit [of c "nat i"] d by simp
  have "\<not> isspace (hd ?d)" "\<not> isspace (last ?d)"
    using digits_of_isdigit [of "hd ?d" "nat i"] digits_of_isdigit [of "last ?d" "nat i"]
      digits_of_not_Nil [of "nat i"] isdigit_not_space by auto
  then have "strip ?d = ?d" using digits_of_not_Nil by (intro strip_id) auto
  then have "python_int ?d = parse_digits 0 False ?d"
    using d isdigit_not_sign [OF c] by (simp add: python_int_def)
  then show ?thesis using False by (simp add: str_int_def parse_digits_of)
qed

lemma sint_key_no_overflow:
  fixes c y :: "64 word"
  assumes "- (2 ^ 63) \<le> sint c * 10000 + sint y" and "sint c * 10000 + sint y < 2 ^ 63"
  shows "sint (c * 10000 + y) = sint c * 10000 + sint y"
proof -
  have "c * 10000 + y = word_of_int (sint c * 10000 + sint y)"
    by simp
  then have "sint (c * 10000 + y) = signed_take_bit 63 (sint c * 10000 + sint y)"
    by (simp only: sint_sbintrunc') simp
  also have "\<dots> = sint c * 10000 + sint y"
    using assms by (simp add: signed_take_bit_int_eq_self)
  finally show ?thesis .
qed

text \<open>Evaluation of the rendering on numerals.\<close>

lemma digit_chars:
  "digit_char 0 = CHR ''0''" "digit_char 1 = CHR ''1''" "digit_char 2 = CHR ''2''"
  "digit_char 3 = CHR ''3''" "digit_char 4 = CHR ''4''" "digit_char 5 = CHR ''5''"
  "digit_char 6 = CHR ''6''" "digit_char 7 = CHR ''7''" "digit_char 8 = CHR ''8''"
  "digit_char 9 = CHR ''9''" "digit_char (Suc 0) = CHR ''1''"
  by code_simp+

lemma digits_of_small: "n < 10 \<Longrightarrow> digits_of n = [digit_char n]"
  by (subst digits_of.simps) simp

lemma digits_of_step: "10 \<le> n \<Longrightarrow> digits_of n = digits_of (n div 10) @ [digit_char (n mod 10)]"
  by (subst digits_of.simps) simp

lemmas eval_digits = digits_of_small digits_of_step digit_chars str_int_def astype_str_def

lemma upper_SMITH: "upper ''SMITH'' = ''SMITH''"
  by code_simp

lemma upper_J_SMITH: "upper ''J SMITH'' = ''J SMITH''"
  by code_simp

section \<open>The lookup tables\<close>

lemma map2_same: "map2 f (map g xs) (map h xs) = map (\<lambda>x. f (g x) (h x)) xs"
  by (induction xs) auto

lemma make_name_dicts_eq:
  "make_name_dicts df = Some
     [to_dict (map (\<lambda>r. astype_str (court_num r * 10000 + year r) @ upper (name_perm r)) df)
        (map judge_name df),
      to_dict (map (\<lambda>r. astype_str (circuit_num r * 10000 + year r) @ upper (name_perm r)) df)
        (map judge_name df),
      to_dict (map (\<lambda>r. astype_str (year r) @ upper (name_perm r)) df) (map judge_name df),
      to_dict (map (\<lambda>r. astype_str (year r) @ upper (name_perm r)) df) (map judge_name df),
      to_dict (map (\<lambda>r. upper (name_perm r)) df) (map judge_name df)]"
  by (simp add: make_name_dicts_def Let_def convert_judge_name_series_def map2_same comp_def)

lemma make_name_dicts_row_keys:
  "make_name_dicts df =
     Some (map (\<lambda>t. to_dict (map (\<lambda>r. row_keys r ! t) df) (map judge_name df)) [0, 1, 2, 3, 4])"
  by (simp add: make_name_dicts_eq row_keys_def Let_def)

text \<open>
  C5. \<^verbatim>\<open>make_name_dicts\<close> returns exactly five tables, in the order court and year,
  circuit and year, year only (twice), bare name. Each key is the decimal rendering of the
  numeric component, computed in int64, followed directly by the permutation text, which
  the function has upper-cased in place. The rendering is plain decimal: \<^verbatim>\<open>int\<close> reads the
  number back, and for a number that is not negative it has digits only and no leading
  zero. Where \<open>court_num * 10000 + year\<close> fits int64, the component is that number.
\<close>

theorem make_name_dicts_keys:
  "make_name_dicts df = Some
     [to_dict (map (\<lambda>r. str_int (sint (court_num r * 10000 + year r)) @ upper (name_perm r)) df)
        (map judge_name df),
      to_dict (map (\<lambda>r. str_int (sint (circuit_num r * 10000 + year r)) @ upper (name_perm r)) df)
        (map judge_name df),
      to_dict (map (\<lambda>r. str_int (sint (year r)) @ upper (name_perm r)) df) (map judge_name df),
      to_dict (map (\<lambda>r. str_int (sint (year r)) @ upper (name_perm r)) df) (map judge_name df),
      to_dict (map (\<lambda>r. upper (name_perm r)) df) (map judge_name df)] \<and>
   (\<forall>i. python_int (str_int i) = Some i) \<and>
   (\<forall>i. 0 \<le> i \<longrightarrow> (\<forall>ch \<in> set (str_int i). isdigit ch) \<and>
                     (0 < i \<longrightarrow> hd (str_int i) \<noteq> CHR ''0'')) \<and>
   (\<forall>c y :: 64 word.
      - (2 ^ 63) \<le> sint c * 10000 + sint y \<and> sint c * 10000 + sint y < 2 ^ 63 \<longrightarrow>
      sint (c * 10000 + y) = sint c * 10000 + sint y)"
proof (intro conjI allI impI ballI)
  show "make_name_dicts df = Some
     [to_dict (map (\<lambda>r. str_int (sint (court_num r * 10000 + year r)) @ upper (name_perm r)) df)
        (map judge_name df),
      to_dict (map (\<lambda>r. str_int (sint (circuit_num r * 10000 + year r)) @ upper (name_perm r)) df)
        (map judge_name df),
      to_dict (map (\<lambda>r. str_int (sint (year r)) @ upper (name_perm r)) df) (map judge_name df),
      to_dict (map (\<lambda>r. str_int (sint (year r)) @ upper (name_perm r)) df) (map judge_name df),
      to_dict (map (\<lambda>r. upper (name_perm r)) df) (map judge_name df)]"
    using make_name_dicts_eq [of df] by (simp add: astype_str_def)
next
  fix i show "python_int (str_int i) = Some i" by (rule python_int_str_int)
next
  fix i :: int and ch assume "0 \<le> i" and "ch \<in> set (str_int i)"
  then show "isdigit ch" using digits_of_isdigit by (simp add: str_int_def)
next
  fix i :: int assume "0 \<le> i" and "0 < i"
  then show "hd (str_int i) \<noteq> CHR ''0''" using digits_of_hd [of "nat i"] by (simp add: str_int_def)
next
  fix c y :: "64 word"
  assume "- (2 ^ 63) \<le> sint c * 10000 + sint y \<and> sint c * 10000 + sint y < 2 ^ 63"
  then show "sint (c * 10000 + y) = sint c * 10000 + sint y"
    using sint_key_no_overflow by blast
qed

text \<open>
  One row, court 5, circuit 2, year 2001: the five tables and the rendering of 52001.
\<close>

theorem make_name_dicts_keys_witness:
  "make_name_dicts
     [\<lparr>start_year = Some 1990, end_year = Some 2010, court_num = 5, circuit_num = 2,
       judge_name = ''Smith, John'', year = 2001, name_perm = ''J SMITH''\<rparr>]
    = Some [ [(''52001J SMITH'', ''Smith, John'')], [(''22001J SMITH'', ''Smith, John'')],
            [(''2001J SMITH'', ''Smith, John'')], [(''2001J SMITH'', ''Smith, John'')],
            [(''J SMITH'', ''Smith, John'')]] \<and>
   (0 :: int) \<le> 52001 \<and> isdigit (hd (str_int 52001)) \<and>
   hd (str_int 52001) \<noteq> CHR ''0'' \<and>
   sint (5 * 10000 + 2001 :: 64 word) = sint (5 :: 64 word) * 10000 + sint (2001 :: 64 word)"
proof -
  let ?df = "[\<lparr>start_year = Some 1990, end_year = Some 2010, court_num = 5, circuit_num = 2,
       judge_name = ''Smith, John'', year = 2001, name_perm = ''J SMITH''\<rparr>]"
  note t = make_name_dicts_keys [of ?df]
  have run: "make_name_dicts ?df
    = Some [ [(''52001J SMITH'', ''Smith, John'')], [(''22001J SMITH'', ''Smith, John'')],
            [(''2001J SMITH'', ''Smith, John'')], [(''2001J SMITH'', ''Smith, John'')],
            [(''J SMITH'', ''Smith, John'')]]"
    using t [THEN conjunct1] by (simp add: to_dict_def eval_digits upper_J_SMITH)
  have pos: "(0 :: int) \<le> 52001" by simp
  have d: "(\<forall>ch \<in> set (str_int 52001). isdigit ch) \<and> (0 < (52001 :: int) \<longrightarrow> hd (str_int 52001) \<noteq> CHR ''0'')"
    using t [THEN conjunct2, THEN conjunct2, THEN conjunct1, rule_format, of 52001] pos by blast
  have s: "sint (5 * 10000 + 2001 :: 64 word) = sint (5 :: 64 word) * 10000 + sint (2001 :: 64 word)"
    using t [THEN conjunct2, THEN conjunct2, THEN conjunct2, rule_format, of 5 2001] by simp
  have "hd (str_int 52001) \<in> set (str_int 52001)"
    by (simp add: eval_digits)
  then have h: "isdigit (hd (str_int 52001))" using d by blast
  show ?thesis using run pos d h s by simp
qed

lemma foldl_update_distinct:
  "distinct (map fst d) \<Longrightarrow>
   distinct (map fst (foldl (\<lambda>d (k, v). AList.update k v d) d kvs))"
  by (induction kvs arbitrary: d) (auto simp: distinct_update)

lemma to_dict_distinct: "distinct (map fst (to_dict ks vs))"
  by (simp add: to_dict_def foldl_update_distinct)

lemma foldl_update_map_of:
  "map_of (foldl (\<lambda>d (k, v). AList.update k v d) d kvs) = map_of d ++ map_of (rev kvs)"
proof (induction kvs arbitrary: d)
  case Nil
  then show ?case by simp
next
  case (Cons kv kvs)
  obtain k v where kv: "kv = (k, v)" by (cases kv)
  have "map_of (foldl (\<lambda>d (k, v). AList.update k v d) d (kv # kvs))
      = map_of (AList.update k v d) ++ map_of (rev kvs)"
    using Cons.IH [of "AList.update k v d"] kv by simp
  also have "\<dots> = map_of d ++ map_of (rev (kv # kvs))"
    by (simp add: kv update_conv' map_add_upd_left fun_eq_iff map_add_def split: option.splits)
  finally show ?case .
qed

lemma map_of_rev_last:
  "j < length kvs \<Longrightarrow>
   (\<forall>j'. j < j' \<and> j' < length kvs \<longrightarrow> fst (kvs ! j') \<noteq> fst (kvs ! j)) \<Longrightarrow>
   map_of (rev kvs) (fst (kvs ! j)) = Some (snd (kvs ! j))"
proof (induction kvs rule: rev_induct)
  case Nil
  then show ?case by simp
next
  case (snoc x xs)
  show ?case
  proof (cases "j = length xs")
    case True
    then show ?thesis by (cases x) simp
  next
    case False
    then have j: "j < length xs" using snoc.prems(1) by simp
    have "fst ((xs @ [x]) ! length xs) \<noteq> fst ((xs @ [x]) ! j)"
      using snoc.prems(2) j by (metis length_append_singleton lessI)
    then have ne: "fst x \<noteq> fst (xs ! j)" using j by (simp add: nth_append)
    have "\<forall>j'. j < j' \<and> j' < length xs \<longrightarrow> fst (xs ! j') \<noteq> fst (xs ! j)"
    proof (intro allI impI)
      fix j' assume a: "j < j' \<and> j' < length xs"
      then have "fst ((xs @ [x]) ! j') \<noteq> fst ((xs @ [x]) ! j)"
        using snoc.prems(2) by simp
      then show "fst (xs ! j') \<noteq> fst (xs ! j)" using a j by (simp add: nth_append)
    qed
    then have "map_of (rev xs) (fst (xs ! j)) = Some (snd (xs ! j))"
      using snoc.IH j by blast
    then show ?thesis using ne j by (cases x) (auto simp: nth_append)
  qed
qed

lemma to_dict_last:
  assumes "length ks = length vs" and "j < length ks"
    and "\<forall>j'. j < j' \<and> j' < length ks \<longrightarrow> ks ! j' \<noteq> ks ! j"
  shows "map_of (to_dict ks vs) (ks ! j) = Some (vs ! j)"
proof -
  have "map_of (to_dict ks vs) = map_of (rev (zip ks vs))"
    by (simp add: to_dict_def foldl_update_map_of)
  moreover have "map_of (rev (zip ks vs)) (fst (zip ks vs ! j)) = Some (snd (zip ks vs ! j))"
    using assms by (intro map_of_rev_last) auto
  ultimately show ?thesis using assms by simp
qed

lemma make_name_dicts_nth:
  assumes "make_name_dicts df = Some ds" and "t < 5"
  shows "ds ! t = to_dict (map (\<lambda>r. row_keys r ! t) df) (map judge_name df)"
proof -
  have ds: "ds = map (\<lambda>t. to_dict (map (\<lambda>r. row_keys r ! t) df) (map judge_name df)) [0, 1, 2, 3, 4]"
    using assms(1) make_name_dicts_row_keys [of df] by simp
  have "t = 0 \<or> t = 1 \<or> t = 2 \<or> t = 3 \<or> t = 4" using assms(2) by arith
  then show ?thesis unfolding ds by auto
qed

text \<open>
  C6. In each of the five tables the keys are pairwise distinct, and when two rows of the
  names table produce the same key, the later one being the last row of the table with
  that key, the value found under the key is the \<^verbatim>\<open>judge_name\<close> of the later row.
\<close>

theorem last_write_wins:
  assumes "make_name_dicts df = Some ds" and "t < 5"
  shows "distinct (map fst (ds ! t)) \<and>
     (\<forall>i j. i \<le> j \<and> j < length df \<and> row_keys (df ! i) ! t = row_keys (df ! j) ! t \<and>
        (\<forall>j'. j < j' \<and> j' < length df \<longrightarrow> row_keys (df ! j') ! t \<noteq> row_keys (df ! j) ! t) \<longrightarrow>
        map_of (ds ! t) (row_keys (df ! i) ! t) = Some (judge_name (df ! j)))"
proof -
  let ?ks = "map (\<lambda>r. row_keys r ! t) df"
  let ?vs = "map judge_name df"
  have ds: "ds ! t = to_dict ?ks ?vs" using assms by (rule make_name_dicts_nth)
  have "map_of (to_dict ?ks ?vs) (row_keys (df ! i) ! t) = Some (judge_name (df ! j))"
    if h: "i \<le> j \<and> j < length df \<and> row_keys (df ! i) ! t = row_keys (df ! j) ! t \<and>
        (\<forall>j'. j < j' \<and> j' < length df \<longrightarrow> row_keys (df ! j') ! t \<noteq> row_keys (df ! j) ! t)"
    for i j
  proof -
    have "map_of (to_dict ?ks ?vs) (?ks ! j) = Some (?vs ! j)"
      using h by (intro to_dict_last) auto
    then show ?thesis using h by simp
  qed
  then show ?thesis unfolding ds using to_dict_distinct by blast
qed

text \<open>
  The scenario of the specification: John Quincy Smith and Jane Smith, both at court 5 in
  2001, share the key of the bare surname; the later row, Jane Smith, is the one found.
\<close>

theorem last_write_wins_witness:
  "make_name_dicts
     [\<lparr>start_year = Some 1990, end_year = Some 2010, court_num = 5, circuit_num = 2,
       judge_name = ''Smith, John Quincy'', year = 2001, name_perm = ''SMITH''\<rparr>,
      \<lparr>start_year = Some 1995, end_year = Some 2015, court_num = 5, circuit_num = 2,
       judge_name = ''Smith, Jane'', year = 2001, name_perm = ''SMITH''\<rparr>]
    = Some [ [(''52001SMITH'', ''Smith, Jane'')], [(''22001SMITH'', ''Smith, Jane'')],
            [(''2001SMITH'', ''Smith, Jane'')], [(''2001SMITH'', ''Smith, Jane'')],
            [(''SMITH'', ''Smith, Jane'')]] \<and>
   (0 :: nat) < 5 \<and>
   map_of [(''52001SMITH'', ''Smith, Jane'')] ''52001SMITH'' = Some ''Smith, Jane''"
proof -
  let ?df = "[\<lparr>start_year = Some 1990, end_year = Some 2010, court_num = 5, circuit_num = 2,
       judge_name = ''Smith, John Quincy'', year = 2001, name_perm = ''SMITH''\<rparr>,
      \<lparr>start_year = Some 1995, end_year = Some 2015, court_num = 5, circuit_num = 2,
       judge_name = ''Smith, Jane'', year = 2001, name_perm = ''SMITH''\<rparr>]"
  let ?ds = "[ [(''52001SMITH'', ''Smith, Jane'')], [(''22001SMITH'', ''Smith, Jane'')],
            [(''2001SMITH'', ''Smith, Jane'')], [(''2001SMITH'', ''Smith, Jane'')],
            [(''SMITH'', ''Smith, Jane'')]]"
  have run: "make_name_dicts ?df = Some ?ds"
    by (simp add: make_name_dicts_eq to_dict_def eval_digits upper_SMITH)
  have t: "(0 :: nat) < 5" by simp
  have k0: "row_keys (?df ! 0) ! 0 = ''52001SMITH''"
    by (simp add: row_keys_def Let_def eval_digits upper_SMITH)
  have k1: "row_keys (?df ! 1) ! 0 = ''52001SMITH''"
    by (simp add: row_keys_def Let_def eval_digits upper_SMITH)
  have "map_of (?ds ! 0) (row_keys (?df ! 0) ! 0) = Some (judge_name (?df ! 1))"
    using last_write_wins [OF run t, THEN conjunct2, rule_format, of 0 1] k0 k1 by simp
  then have "map_of [(''52001SMITH'', ''Smith, Jane'')] ''52001SMITH'' = Some ''Smith, Jane''"
    by simp
  then show ?thesis using run t by blast
qed

text \<open>
  C9. With \<^verbatim>\<open>dict_type = 2\<close> the result of \<^verbatim>\<open>convert_judge_name_series\<close> does not depend on
  the court argument: the columns \<^verbatim>\<open>concat_name3\<close> and \<^verbatim>\<open>concat_name4\<close> are equal, and so
  are the third and the fourth table of \<^verbatim>\<open>make_name_dicts\<close>.
\<close>

theorem year_only_tables_equal:
  "convert_judge_name_series yr court name 2 = convert_judge_name_series yr court' name 2 \<and>
   convert_judge_name_series (map year df) (map court_num df) (map name_perm df) 2
     = convert_judge_name_series (map year df) (map circuit_num df) (map name_perm df) 2 \<and>
   (\<exists>ds. make_name_dicts df = Some ds \<and> length ds = 5 \<and> ds ! 2 = ds ! 3)"
  by (simp add: convert_judge_name_series_def make_name_dicts_eq)

lemma set_drop_duplicates: "set (drop_duplicates xs) = set xs"
  by (induction xs rule: drop_duplicates.induct) auto

lemma wide_to_long_year: "r \<in> set (wide_to_long y df) \<Longrightarrow> year r = y"
  by (auto simp: wide_to_long_def)

lemma make_names_df_year: "r \<in> set (make_names_df df) \<Longrightarrow> year r = 0"
  using wide_to_long_year [of r 0 "map snd df"]
  by (simp add: make_names_df_def Let_def set_drop_duplicates)

lemma length_drop_duplicates: "length (drop_duplicates xs) \<le> length xs"
proof (induction xs rule: drop_duplicates.induct)
  case 1
  then show ?case by simp
next
  case (2 x xs)
  have "length (removeAll x xs) \<le> length xs" by simp
  then have "length (drop_duplicates (removeAll x xs)) \<le> length xs"
    using 2 by (rule order_trans [rotated])
  then show ?case by simp
qed

lemma length_wide_to_long: "length (wide_to_long y df) = 7 * length df"
  by (simp add: wide_to_long_def)

lemma length_make_names_df: "length (make_names_df df) \<le> 7 * length df"
proof -
  have "length (make_names_df df)
      \<le> length (filter (\<lambda>r. name_perm r \<noteq> []) (wide_to_long 0 (map snd df)))"
    by (simp add: make_names_df_def Let_def length_drop_duplicates)
  also have "\<dots> \<le> length (wide_to_long 0 (map snd df))" by (rule length_filter_le)
  also have "\<dots> = 7 * length df" by (simp add: length_wide_to_long)
  finally show ?thesis .
qed

lemma wide_to_long_source:
  "r \<in> set (wide_to_long y df) \<Longrightarrow>
   \<exists>j \<in> set df. start_year r = start_year j \<and> end_year r = end_year j \<and>
      court_num r = court_num j \<and> circuit_num r = circuit_num j \<and> judge_name r = judge_name j"
  by (auto simp: wide_to_long_def)

lemma make_names_df_source:
  "r \<in> set (make_names_df df) \<Longrightarrow>
   \<exists>j \<in> snd ` set df. start_year r = start_year j \<and> end_year r = end_year j \<and>
      court_num r = court_num j \<and> circuit_num r = circuit_num j \<and> judge_name r = judge_name j"
  using wide_to_long_source [of r 0 "map snd df"]
  by (simp add: make_names_df_def Let_def set_drop_duplicates)

lemma astype_str_0: "astype_str 0 = ''0''"
  by (simp add: eval_digits)

text \<open>
  C10. Every row of the names table has \<open>year = 0\<close> and carries the start and end year
  of the judge row it comes from, and a judge row gives seven rows at most, one for each
  permutation and none for each year of service. So in the tables built from it the
  court-and-year keys are \<open>court_num * 10000\<close> followed by the name, the year-only keys are
  \<open>0\<close> followed by the name. The table written by \<^verbatim>\<open>make_names_df\<close> is taken to be the
  table that \<^verbatim>\<open>make_name_dicts\<close> reads back.
\<close>

theorem make_names_df_year_zero:
  "(\<forall>r \<in> set (make_names_df df). year r = 0 \<and>
      (\<exists>j \<in> snd ` set df. start_year r = start_year j \<and> end_year r = end_year j \<and>
         court_num r = court_num j \<and> circuit_num r = circuit_num j \<and>
         judge_name r = judge_name j)) \<and>
   length (make_names_df df) \<le> 7 * length df \<and>
   make_name_dicts (make_names_df df) = Some
     [to_dict (map (\<lambda>r. str_int (sint (court_num r * 10000)) @ upper (name_perm r))
                 (make_names_df df)) (map judge_name (make_names_df df)),
      to_dict (map (\<lambda>r. str_int (sint (circuit_num r * 10000)) @ upper (name_perm r))
                 (make_names_df df)) (map judge_name (make_names_df df)),
      to_dict (map (\<lambda>r. ''0'' @ upper (name_perm r)) (make_names_df df))
        (map judge_name (make_names_df df)),
      to_dict (map (\<lambda>r. ''0'' @ upper (name_perm r)) (make_names_df df))
        (map judge_name (make_names_df df)),
      to_dict (map (\<lambda>r. upper (name_perm r)) (make_names_df df))
        (map judge_name (make_names_df df))]"
proof -
  let ?N = "make_names_df df"
  have y: "\<forall>r \<in> set ?N. year r = 0" using make_names_df_year by blast
  have k1: "map (\<lambda>r. astype_str (court_num r * 10000 + year r) @ upper (name_perm r)) ?N
      = map (\<lambda>r. str_int (sint (court_num r * 10000)) @ upper (name_perm r)) ?N"
    using y by (intro map_cong) (simp_all add: astype_str_def)
  have k2: "map (\<lambda>r. astype_str (circuit_num r * 10000 + year r) @ upper (name_perm r)) ?N
      = map (\<lambda>r. str_int (sint (circuit_num r * 10000)) @ upper (name_perm r)) ?N"
    using y by (intro map_cong) (simp_all add: astype_str_def)
  have k3: "map (\<lambda>r. astype_str (year r) @ upper (name_perm r)) ?N
      = map (\<lambda>r. ''0'' @ upper (name_perm r)) ?N"
    using y by (intro map_cong) (simp_all add: astype_str_0)
  have src: "\<forall>r \<in> set ?N. year r = 0 \<and>
      (\<exists>j \<in> snd ` set df. start_year r = start_year j \<and> end_year r = end_year j \<and>
         court_num r = court_num j \<and> circuit_num r = circuit_num j \<and>
         judge_name r = judge_name j)"
    using y make_names_df_source by blast
  show ?thesis
    using src length_make_names_df [of df] make_name_dicts_eq [of ?N]
    unfolding k1 k2 k3 by blast
qed

text \<open>
  One judge with two permutations: the keys carry 50000, 20000 and 0.
\<close>

theorem make_names_df_year_zero_witness:
  "map year (make_names_df
        [(0, blank_row\<lparr>court_num := 5, circuit_num := 2, judge_name := ''Smith, John'',
                        name_perm6 := ''J SMITH'', name_perm7 := ''SMITH''\<rparr>)]) = [0, 0] \<and>
   length (make_names_df
        [(0, blank_row\<lparr>court_num := 5, circuit_num := 2, judge_name := ''Smith, John'',
                        name_perm6 := ''J SMITH'', name_perm7 := ''SMITH''\<rparr>)]) \<le> 7 \<and>
   make_name_dicts (make_names_df
        [(0, blank_row\<lparr>court_num := 5, circuit_num := 2, judge_name := ''Smith, John'',
                        name_perm6 := ''J SMITH'', name_perm7 := ''SMITH''\<rparr>)])
    = Some [ [(''50000J SMITH'', ''Smith, John''), (''50000SMITH'', ''Smith, John'')],
            [(''20000J SMITH'', ''Smith, John''), (''20000SMITH'', ''Smith, John'')],
            [(''0J SMITH'', ''Smith, John''), (''0SMITH'', ''Smith, John'')],
            [(''0J SMITH'', ''Smith, John''), (''0SMITH'', ''Smith, John'')],
            [(''J SMITH'', ''Smith, John''), (''SMITH'', ''Smith, John'')]]"
proof -
  let ?df = "[(0 :: int, blank_row\<lparr>court_num := 5, circuit_num := 2, judge_name := ''Smith, John'',
                        name_perm6 := ''J SMITH'', name_perm7 := ''SMITH''\<rparr>)]"
  note t = make_names_df_year_zero [of ?df]
  have N: "make_names_df ?df =
     [\<lparr>start_year = None, end_year = None, court_num = 5, circuit_num = 2,
       judge_name = ''Smith, John'', year = 0, name_perm = ''J SMITH''\<rparr>,
      \<lparr>start_year = None, end_year = None, court_num = 5, circuit_num = 2,
       judge_name = ''Smith, John'', year = 0, name_perm = ''SMITH''\<rparr>]"
    by (simp add: make_names_df_def wide_to_long_def blank_row_def)
  have run: "make_name_dicts (make_names_df ?df)
    = Some [ [(''50000J SMITH'', ''Smith, John''), (''50000SMITH'', ''Smith, John'')],
            [(''20000J SMITH'', ''Smith, John''), (''20000SMITH'', ''Smith, John'')],
            [(''0J SMITH'', ''Smith, John''), (''0SMITH'', ''Smith, John'')],
            [(''0J SMITH'', ''Smith, John''), (''0SMITH'', ''Smith, John'')],
            [(''J SMITH'', ''Smith, John''), (''SMITH'', ''Smith, John'')]]"
    using t [THEN conjunct2, THEN conjunct2] unfolding N
    by (simp add: to_dict_def eval_digits upper_J_SMITH upper_SMITH)
  have "length (make_names_df ?df) \<le> 7 * length ?df"
    using t [THEN conjunct2, THEN conjunct1] .
  then have len: "length (make_names_df ?df) \<le> 7" by simp
  have "\<forall>r \<in> set (make_names_df ?df). year r = 0"
    using t [THEN conjunct1] by blast
  then have yrs: "map year (make_names_df ?df) = [0, 0]"
    unfolding N by simp
  show ?thesis using yrs run len by blast
qed


end
